theory Spec2Isabelle
  imports Main
begin

section \<open>Data model\<close>

text \<open>
  Go strings are byte sequences and are modelled as \<open>string\<close>; a Go
  \<^verbatim>\<open>map[string][]string\<close> is a partial function from keys to lists (reading a
  missing key of a Go map, or any key of a nil map, gives \<open>ok = false\<close>, here
  \<open>None\<close>); a nil slice and an empty slice are both the empty list, since the
  code only ranges over slices, appends to them and takes their length.
\<close>

subsection \<open>permissions.go: UserPermissions and the RBAC objects it reads\<close>

text \<open>\<^verbatim>\<open>type UserPermissions struct { Resources, APIGroups map[string][]string }\<close>\<close>

record UserPermissions =
  Resources :: "string \<rightharpoonup> string list"
  APIGroups :: "string \<rightharpoonup> string list"

text \<open>
  The fields of the Kubernetes RBAC objects that \<^verbatim>\<open>GetUserPermissions\<close> reads:
  \<^verbatim>\<open>rule.APIGroups\<close>, \<^verbatim>\<open>rule.Resources\<close>, \<^verbatim>\<open>rule.Verbs\<close>,
  \<^verbatim>\<open>subject.Kind\<close>, \<^verbatim>\<open>subject.Name\<close>, \<^verbatim>\<open>crb.Subjects\<close>,
  \<^verbatim>\<open>crb.RoleRef.Name\<close> and \<^verbatim>\<open>cr.Rules\<close>.
\<close>

record PolicyRule =
  rule_APIGroups :: "string list"
  rule_Resources :: "string list"
  rule_Verbs :: "string list"

record Subject =
  Kind :: string
  Name :: string

record ClusterRoleBinding =
  Subjects :: "Subject list"
  RoleRef_Name :: string

record ClusterRole =
  Rules :: "PolicyRule list"

text \<open>
  The error of a collaborator is an opaque Go \<^verbatim>\<open>error\<close>; the model keeps its
  message. Every error this code returns is made by \<^verbatim>\<open>fmt.Errorf("...: %w", err)\<close>:
  a formatted message that wraps the collaborator's error. A nil-pointer
  dereference is a run-time panic and is kept apart.
\<close>

type_synonym cause = string

datatype error =
  AuthorityError string cause
| NilPointerPanic

text \<open>
  The two calls made on \<^verbatim>\<open>k8s.RbacV1()\<close>: \<^verbatim>\<open>ClusterRoleBindings().List\<close>, whose
  result is \<^verbatim>\<open>crbs.Items\<close> or an error, and \<^verbatim>\<open>ClusterRoles().Get\<close> by role name.
  The cluster is read as it stands during one resolution: a role name decides
  the result of its fetch.
\<close>

record k8s_Interface =
  ClusterRoleBindings_List :: "cause + ClusterRoleBinding list"
  ClusterRoles_Get :: "string \<Rightarrow> cause + ClusterRole"

section \<open>permissions.go: HasPermission and FilterResources\<close>

text \<open>Lines 73-77: the loop over the verbs of \<^verbatim>\<open>Resources["*"]\<close>.\<close>

fun wildcard_verbs_loop :: "string list \<Rightarrow> string \<Rightarrow> bool" where
  "wildcard_verbs_loop [] verb = False"
| "wildcard_verbs_loop (v # vs) verb =
     (if v = ''*'' \<or> v = verb then True else wildcard_verbs_loop vs verb)"

text \<open>Lines 89-93: the loop over \<^verbatim>\<open>allowedResources\<close>.\<close>

fun allowed_resources_loop :: "string list \<Rightarrow> string \<Rightarrow> bool" where
  "allowed_resources_loop [] resource = False"
| "allowed_resources_loop (allowedResource # rest) resource =
     (if allowedResource = ''*'' \<or> allowedResource = resource then True
      else allowed_resources_loop rest resource)"

text \<open>
  Lines 82-96: the loop over the verbs of \<^verbatim>\<open>Resources[resource]\<close>. The variable
  \<^verbatim>\<open>apiGroup\<close> is assigned inside the loop body, so it is threaded through the
  iterations.
\<close>

fun resource_verbs_loop ::
  "UserPermissions \<Rightarrow> string list \<Rightarrow> string \<Rightarrow> string \<Rightarrow> string \<Rightarrow> bool" where
  "resource_verbs_loop p [] apiGroup resource verb = False"
| "resource_verbs_loop p (v # vs) apiGroup resource verb =
     (if v = ''*'' \<or> v = verb then
        (let apiGroup' = (if apiGroup = ''core'' then '''' else apiGroup) in
           (case APIGroups p apiGroup' of
              Some allowedResources \<Rightarrow>
                if allowed_resources_loop allowedResources resource then True
                else resource_verbs_loop p vs apiGroup' resource verb
            | None \<Rightarrow> resource_verbs_loop p vs apiGroup' resource verb))
      else resource_verbs_loop p vs apiGroup resource verb)"

definition HasPermission :: "UserPermissions \<Rightarrow> string \<Rightarrow> string \<Rightarrow> string \<Rightarrow> bool" where
  "HasPermission p apiGroup resource verb =
     (if (case Resources p ''*'' of
            Some verbs \<Rightarrow> wildcard_verbs_loop verbs verb
          | None \<Rightarrow> False)
      then True
      else (case Resources p resource of
              Some verbs \<Rightarrow> resource_verbs_loop p verbs apiGroup resource verb
            | None \<Rightarrow> False))"

text \<open>Lines 108-113: every element of \<^verbatim>\<open>resources\<close> is appended to \<^verbatim>\<open>filtered\<close>.\<close>

fun filtered_loop :: "'a list \<Rightarrow> 'a list \<Rightarrow> 'a list" where
  "filtered_loop [] filtered = filtered"
| "filtered_loop (resource # rest) filtered = filtered_loop rest (filtered @ [resource])"

definition FilterResources ::
  "UserPermissions \<Rightarrow> string \<Rightarrow> string \<Rightarrow> 'a list \<Rightarrow> 'a list" where
  "FilterResources p apiGroup resourceType resources =
     (if \<not> HasPermission p apiGroup resourceType ''list'' then []
      else filtered_loop resources [])"

section \<open>permissions.go: GetUserPermissions\<close>

text \<open>Lines 45-50: each API group of the rule, \<^verbatim>\<open>"*"\<close> renamed to \<^verbatim>\<open>"core"\<close>.\<close>

fun process_apiGroups ::
  "string list \<Rightarrow> string list \<Rightarrow> (string \<rightharpoonup> string list) \<Rightarrow> (string \<rightharpoonup> string list)" where
  "process_apiGroups [] resources groups = groups"
| "process_apiGroups (apiGroup # rest) resources groups =
     (let apiGroup' = (if apiGroup = ''*'' then ''core'' else apiGroup) in
        process_apiGroups rest resources
          (groups(apiGroup' \<mapsto>
             (case groups apiGroup' of None \<Rightarrow> [] | Some old \<Rightarrow> old) @ resources)))"

text \<open>Lines 53-60: each resource of the rule gets the rule's verbs.\<close>

fun process_resources ::
  "string list \<Rightarrow> string list \<Rightarrow> (string \<rightharpoonup> string list) \<Rightarrow> (string \<rightharpoonup> string list)" where
  "process_resources [] verbs res = res"
| "process_resources (resource # rest) verbs res =
     process_resources rest verbs
       (if resource = ''*'' then res(''*'' \<mapsto> verbs) else res(resource \<mapsto> verbs))"

definition process_rule :: "PolicyRule \<Rightarrow> UserPermissions \<Rightarrow> UserPermissions" where
  "process_rule rule p =
     \<lparr> Resources = process_resources (rule_Resources rule) (rule_Verbs rule) (Resources p),
       APIGroups = process_apiGroups (rule_APIGroups rule) (rule_Resources rule) (APIGroups p) \<rparr>"

text \<open>Lines 43-61: the rules of one role, in order.\<close>

fun process_rules :: "PolicyRule list \<Rightarrow> UserPermissions \<Rightarrow> UserPermissions" where
  "process_rules [] p = p"
| "process_rules (rule # rest) p = process_rules rest (process_rule rule p)"

text \<open>
  Lines 34-63: the subjects of one binding. The list of role names is the
  record of the calls to \<^verbatim>\<open>ClusterRoles().Get\<close> made so far, in order; it is
  returned on failure too.
\<close>

fun process_subjects ::
  "k8s_Interface \<Rightarrow> string \<Rightarrow> ClusterRoleBinding \<Rightarrow> Subject list \<Rightarrow>
   UserPermissions \<Rightarrow> string list \<Rightarrow> (error + UserPermissions) \<times> string list" where
  "process_subjects k8s username crb [] p fetched = (Inr p, fetched)"
| "process_subjects k8s username crb (subject # rest) p fetched =
     (if Kind subject = ''User'' \<and> Name subject = username then
        (case ClusterRoles_Get k8s (RoleRef_Name crb) of
           Inl err \<Rightarrow>
             (Inl (AuthorityError
                    (''failed to get ClusterRole '' @ RoleRef_Name crb @ '': '' @ err) err),
              fetched @ [RoleRef_Name crb])
         | Inr cr \<Rightarrow>
             process_subjects k8s username crb rest
               (process_rules (Rules cr) p) (fetched @ [RoleRef_Name crb]))
      else process_subjects k8s username crb rest p fetched)"

text \<open>Lines 33-64: the bindings, in order; the first error ends the loop.\<close>

fun process_crbs ::
  "k8s_Interface \<Rightarrow> string \<Rightarrow> ClusterRoleBinding list \<Rightarrow>
   UserPermissions \<Rightarrow> string list \<Rightarrow> (error + UserPermissions) \<times> string list" where
  "process_crbs k8s username [] p fetched = (Inr p, fetched)"
| "process_crbs k8s username (crb # rest) p fetched =
     (case process_subjects k8s username crb (Subjects crb) p fetched of
        (Inl err, fetched') \<Rightarrow> (Inl err, fetched')
      | (Inr p', fetched') \<Rightarrow> process_crbs k8s username rest p' fetched')"

definition GetUserPermissions ::
  "k8s_Interface \<Rightarrow> string \<Rightarrow> (error + UserPermissions) \<times> string list" where
  "GetUserPermissions k8s username =
     (let permissions = \<lparr> Resources = Map.empty, APIGroups = Map.empty \<rparr> in
        (case ClusterRoleBindings_List k8s of
           Inl err \<Rightarrow>
             (Inl (AuthorityError (''failed to list ClusterRoleBindings: '' @ err) err), [])
         | Inr crbs \<Rightarrow> process_crbs k8s username crbs permissions []))"

section \<open>The permission cache and CheckUserPermissions (package business)\<close>

text \<open>
  \<^verbatim>\<open>type ResourcePermissions struct { ResourcePermissions map[string][]string;
  LastChecked time.Time }\<close>. An instant is an integer number of nanoseconds.
\<close>

record ResourcePermissions =
  ResourcePermissions :: "string \<rightharpoonup> string list"
  LastChecked :: int

text \<open>
  The cache \<^verbatim>\<open>userPermissionsCache.permissions\<close> maps a user name to a pointer
  \<^verbatim>\<open>*ResourcePermissions\<close>; the pointer may be nil, which is \<open>None\<close>. The
  functions below take the cache and return the updated one; the lock is not
  modelled, each function runs alone.
\<close>

type_synonym permissions_cache = "string \<rightharpoonup> ResourcePermissions option"

definition CacheUserPermissions ::
  "string \<Rightarrow> ResourcePermissions option \<Rightarrow> permissions_cache \<Rightarrow> permissions_cache" where
  "CacheUserPermissions username permissions cache = cache(username \<mapsto> permissions)"

text \<open>
  \<^verbatim>\<open>GetUserPermissions\<close> of package business (the name without prefix is the
  resolver of permissions.go): indexing a Go map at a missing key gives the
  zero value, the nil pointer.
\<close>

definition business_GetUserPermissions ::
  "string \<Rightarrow> permissions_cache \<Rightarrow> ResourcePermissions option" where
  "business_GetUserPermissions username cache =
     (case cache username of None \<Rightarrow> None | Some permissions \<Rightarrow> permissions)"

definition ClearUserPermissions :: "string \<Rightarrow> permissions_cache \<Rightarrow> permissions_cache" where
  "ClearUserPermissions username cache = cache(username := None)"

text \<open>
  \<^verbatim>\<open>time.Duration\<close> is a signed 64-bit count of nanoseconds and
  \<^verbatim>\<open>Time.Sub\<close> saturates at its least and greatest value;
  \<^verbatim>\<open>time.Since(t)\<close> is \<^verbatim>\<open>time.Now().Sub(t)\<close>, with the current instant a
  parameter here.
\<close>

definition minDuration :: int where
  "minDuration = - (2 ^ 63)"

definition maxDuration :: int where
  "maxDuration = 2 ^ 63 - 1"

definition time_Sub :: "int \<Rightarrow> int \<Rightarrow> int" where
  "time_Sub t u =
     (let d = t - u in
        if d < minDuration then minDuration
        else if maxDuration < d then maxDuration
        else d)"

definition time_Minute :: int where
  "time_Minute = 60 * 1000000000"

text \<open>
  Modelled from the spec: the declaration of \<^verbatim>\<open>kubernetes.ClientInterface\<close> and
  of the review objects it returns is not part of these sources. The spec gives
  \<^verbatim>\<open>SelfReview(context, namespace, apiGroup, resource, verbs[]) -> [{Allowed: bool}]\<close>,
  failing with a transport or authorization error; the code reads
  \<^verbatim>\<open>review[0].Status.Allowed\<close>.
\<close>

record AccessReview =
  Status_Allowed :: bool

type_synonym review_call = "string \<times> string \<times> string \<times> string list"

record ClientInterface =
  GetSelfSubjectAccessReview ::
    "string \<Rightarrow> string \<Rightarrow> string \<Rightarrow> string list \<Rightarrow> cause + AccessReview list"

text \<open>Lines 53-57: the loop over the cached verbs of the resource type.\<close>

fun cached_verbs_loop :: "string list \<Rightarrow> string \<Rightarrow> bool" where
  "cached_verbs_loop [] verb = False"
| "cached_verbs_loop (v # vs) verb = (if v = verb then True else cached_verbs_loop vs verb)"

text \<open>
  Lines 44-48, after a successful review call.
\<close>

definition review_result :: "AccessReview list \<Rightarrow> bool" where
  "review_result review = (case review of [] \<Rightarrow> False | r # _ \<Rightarrow> Status_Allowed r)"

text \<open>
  Lines 38-48: the review call with namespace \<^verbatim>\<open>""\<close>, api \<^verbatim>\<open>""\<close>, the
  resource type and the one verb (an empty Go string is the empty list). It
  gives the result and the call made, as (namespace, api, resourceType, verbs).
\<close>

definition live_check ::
  "ClientInterface \<Rightarrow> string \<Rightarrow> string \<Rightarrow> (error + bool) \<times> review_call list" where
  "live_check userClient resourceType verb =
     (case GetSelfSubjectAccessReview userClient [] [] resourceType [verb] of
        Inl err \<Rightarrow>
          (Inl (AuthorityError (''error checking permissions: '' @ err) err),
           [([], [], resourceType, [verb])])
      | Inr review \<Rightarrow>
          (Inr (review_result review), [([], [], resourceType, [verb])]))"

text \<open>Lines 52-60: the lookup in a cached entry.\<close>

definition cached_check :: "ResourcePermissions \<Rightarrow> string \<Rightarrow> string \<Rightarrow> bool" where
  "cached_check permissions resourceType verb =
     (case ResourcePermissions permissions resourceType of
        Some verbs \<Rightarrow> cached_verbs_loop verbs verb
      | None \<Rightarrow> False)"

text \<open>
  \<^verbatim>\<open>CheckUserPermissions\<close>, given the client, the current instant and the
  cache. It returns the result, the cache after the call, and the calls made
  to \<^verbatim>\<open>GetSelfSubjectAccessReview\<close>. When the key exists with a nil pointer,
  \<^verbatim>\<open>permissions.LastChecked\<close> panics.
\<close>

definition CheckUserPermissions ::
  "ClientInterface \<Rightarrow> int \<Rightarrow> permissions_cache \<Rightarrow> string \<Rightarrow> string \<Rightarrow> string \<Rightarrow>
   (error + bool) \<times> permissions_cache \<times> review_call list" where
  "CheckUserPermissions userClient now cache username resourceType verb =
     (case cache username of
        None \<Rightarrow>
          (case live_check userClient resourceType verb of
             (result, calls) \<Rightarrow> (result, cache, calls))
      | Some None \<Rightarrow> (Inl NilPointerPanic, cache, [])
      | Some (Some permissions) \<Rightarrow>
          (if 5 * time_Minute < time_Sub now (LastChecked permissions) then
             (case live_check userClient resourceType verb of
                (result, calls) \<Rightarrow> (result, cache, calls))
           else (Inr (cached_check permissions resourceType verb), cache, [])))"

section \<open>Notions used to state the properties\<close>

text \<open>The test of line 35 on a subject of a binding.\<close>

definition matches :: "string \<Rightarrow> Subject \<Rightarrow> bool" where
  "matches username subject \<longleftrightarrow> Kind subject = ''User'' \<and> Name subject = username"

text \<open>
  The rules that a resolution for \<open>username\<close> folds, in the order of
  processing: for each binding in turn, for each of its subjects that is the
  user, the rules of the referenced role. This is the specification's reading
  of "the processed rules", written without the loops, the snapshot and the
  error handling of \<open>process_crbs\<close>.
\<close>

definition matched_rules ::
  "k8s_Interface \<Rightarrow> string \<Rightarrow> ClusterRoleBinding list \<Rightarrow> PolicyRule list" where
  "matched_rules k8s username crbs =
     concat (map (\<lambda>crb.
       concat (map (\<lambda>subject.
                 case ClusterRoles_Get k8s (RoleRef_Name crb) of
                   Inr cr \<Rightarrow> Rules cr
                 | Inl err \<Rightarrow> [])
               (filter (matches username) (Subjects crb))))
       crbs)"

subsection \<open>Concrete clusters, clients and caches\<close>

definition role_get :: ClusterRole where
  "role_get = \<lparr> Rules = [\<lparr> rule_APIGroups = [[]], rule_Resources = [''pods''],
                            rule_Verbs = [''get''] \<rparr>] \<rparr>"

definition role_list :: ClusterRole where
  "role_list = \<lparr> Rules = [\<lparr> rule_APIGroups = [[]], rule_Resources = [''pods''],
                             rule_Verbs = [''list''] \<rparr>] \<rparr>"

definition role_all_groups :: ClusterRole where
  "role_all_groups = \<lparr> Rules = [\<lparr> rule_APIGroups = [''*''], rule_Resources = [''pods''],
                                   rule_Verbs = [''get''] \<rparr>] \<rparr>"

definition alice_binding :: "string \<Rightarrow> ClusterRoleBinding" where
  "alice_binding role =
     \<lparr> Subjects = [\<lparr> Kind = ''Group'', Name = ''alice'' \<rparr>,
                   \<lparr> Kind = ''User'', Name = ''alice'' \<rparr>],
       RoleRef_Name = role \<rparr>"

definition example_roles :: "string \<Rightarrow> cause + ClusterRole" where
  "example_roles name =
     (if name = ''role-get'' then Inr role_get
      else if name = ''role-list'' then Inr role_list
      else if name = ''role-all-groups'' then Inr role_all_groups
      else Inl ''not found'')"

definition two_roles_k8s :: k8s_Interface where
  "two_roles_k8s =
     \<lparr> ClusterRoleBindings_List = Inr [alice_binding ''role-get'', alice_binding ''role-list''],
       ClusterRoles_Get = example_roles \<rparr>"

definition missing_role_k8s :: k8s_Interface where
  "missing_role_k8s =
     \<lparr> ClusterRoleBindings_List =
         Inr [alice_binding ''role-get'', alice_binding ''role-gone'',
              alice_binding ''role-list''],
       ClusterRoles_Get = example_roles \<rparr>"

definition all_groups_k8s :: k8s_Interface where
  "all_groups_k8s =
     \<lparr> ClusterRoleBindings_List = Inr [alice_binding ''role-all-groups''],
       ClusterRoles_Get = example_roles \<rparr>"

definition allowing_client :: ClientInterface where
  "allowing_client =
     \<lparr> GetSelfSubjectAccessReview =
         (\<lambda>namespace api resourceType verbs.
            Inr [\<lparr> Status_Allowed = True \<rparr>, \<lparr> Status_Allowed = False \<rparr>]) \<rparr>"

definition failing_client :: ClientInterface where
  "failing_client =
     \<lparr> GetSelfSubjectAccessReview =
         (\<lambda>namespace api resourceType verbs. Inl ''forbidden'') \<rparr>"

definition alice_entry :: ResourcePermissions where
  "alice_entry =
     \<lparr> ResourcePermissions = [''pods'' \<mapsto> [''get''], ''nodes'' \<mapsto> [''*'']],
       LastChecked = 1000 \<rparr>"

definition alice_cache :: permissions_cache where
  "alice_cache = [''alice'' \<mapsto> Some alice_entry]"

section \<open>The loops, characterised\<close>

lemma wildcard_verbs_loop_iff:
  "wildcard_verbs_loop verbs verb \<longleftrightarrow> ''*'' \<in> set verbs \<or> verb \<in> set verbs"
  by (induction verbs) auto

lemma allowed_resources_loop_iff:
  "allowed_resources_loop rs resource \<longleftrightarrow> ''*'' \<in> set rs \<or> resource \<in> set rs"
  by (induction rs) auto

lemma cached_verbs_loop_iff: "cached_verbs_loop verbs verb \<longleftrightarrow> verb \<in> set verbs"
  by (induction verbs) auto

lemma filtered_loop_append: "filtered_loop resources filtered = filtered @ resources"
  by (induction resources arbitrary: filtered) auto

text \<open>
  The assignment to \<^verbatim>\<open>apiGroup\<close> inside the loop is idempotent, so every
  iteration looks the same group up.
\<close>

lemma resource_verbs_loop_iff:
  "resource_verbs_loop p verbs apiGroup resource verb \<longleftrightarrow>
     (''*'' \<in> set verbs \<or> verb \<in> set verbs) \<and>
     (\<exists>rs. APIGroups p (if apiGroup = ''core'' then [] else apiGroup) = Some rs
           \<and> (''*'' \<in> set rs \<or> resource \<in> set rs))"
proof (induction verbs arbitrary: apiGroup)
  case Nil
  show ?case by simp
next
  case (Cons v vs)
  show ?case
    by (auto simp: Cons.IH allowed_resources_loop_iff Let_def split: option.splits)
qed

text \<open>Saturation of the duration does not change the comparison with five minutes.\<close>

lemma time_Sub_stale:
  "5 * time_Minute < time_Sub now t \<longleftrightarrow> 5 * time_Minute < now - t"
  by (simp add: time_Sub_def Let_def minDuration_def maxDuration_def time_Minute_def)

lemma process_rules_append:
  "process_rules (xs @ ys) p = process_rules ys (process_rules xs p)"
  by (induction xs arbitrary: p) auto

lemma process_resources_lookup:
  "process_resources rs verbs res r = (if r \<in> set rs then Some verbs else res r)"
  by (induction rs arbitrary: res) auto

lemma Resources_process_rule:
  "Resources (process_rule rule p) r =
     (if r \<in> set (rule_Resources rule) then Some (rule_Verbs rule) else Resources p r)"
  by (simp add: process_rule_def process_resources_lookup)

lemma find_append_cases:
  "find P (xs @ ys) = (case find P xs of None \<Rightarrow> find P ys | Some x \<Rightarrow> Some x)"
  by (induction xs) auto

lemma Resources_process_rules:
  "Resources (process_rules rules p) r =
     (case find (\<lambda>rule. r \<in> set (rule_Resources rule)) (rev rules) of
        Some rule \<Rightarrow> Some (rule_Verbs rule)
      | None \<Rightarrow> Resources p r)"
proof (induction rules arbitrary: p)
  case Nil
  show ?case by simp
next
  case (Cons rule rest)
  show ?case
    by (simp add: Cons.IH find_append_cases Resources_process_rule split: option.splits)
qed

subsection \<open>The subjects of one binding\<close>

lemma process_subjects_ok:
  assumes "ClusterRoles_Get k8s (RoleRef_Name crb) = Inr cr"
  shows "process_subjects k8s username crb ss p fetched =
     (Inr (process_rules (concat (map (\<lambda>s. Rules cr) (filter (matches username) ss))) p),
      fetched @ map (\<lambda>s. RoleRef_Name crb) (filter (matches username) ss))"
  using assms
  by (induction ss arbitrary: p fetched) (auto simp: matches_def process_rules_append)

lemma process_subjects_fail:
  assumes "ClusterRoles_Get k8s (RoleRef_Name crb) = Inl e"
  shows "process_subjects k8s username crb ss p fetched =
     (if filter (matches username) ss = [] then (Inr p, fetched)
      else (Inl (AuthorityError
                  (''failed to get ClusterRole '' @ RoleRef_Name crb @ '': '' @ e) e),
            fetched @ [RoleRef_Name crb]))"
  using assms
  by (induction ss arbitrary: p fetched) (auto simp: matches_def)

lemma process_subjects_no_match:
  assumes "\<forall>s \<in> set ss. \<not> matches username s"
  shows "process_subjects k8s username crb ss p fetched = (Inr p, fetched)"
  using assms
  by (induction ss) (auto simp: matches_def)

subsection \<open>The bindings\<close>

lemma process_crbs_no_match:
  assumes "\<forall>crb \<in> set crbs. \<forall>s \<in> set (Subjects crb). \<not> matches username s"
  shows "process_crbs k8s username crbs p fetched = (Inr p, fetched)"
  using assms
  by (induction crbs) (auto simp: process_subjects_no_match)

lemma process_crbs_rules:
  "process_crbs k8s username crbs p fetched = (Inr p', fetched') \<Longrightarrow>
   p' = process_rules (matched_rules k8s username crbs) p"
proof (induction crbs arbitrary: p fetched)
  case Nil
  then show ?case by (simp add: matched_rules_def)
next
  case (Cons crb rest)
  show ?case
  proof (cases "ClusterRoles_Get k8s (RoleRef_Name crb)")
    case (Inl e)
    with Cons.prems have none: "filter (matches username) (Subjects crb) = []"
      and rest: "process_crbs k8s username rest p fetched = (Inr p', fetched')"
      by (auto simp: process_subjects_fail split: if_splits)
    from Cons.IH [OF rest] none show ?thesis
      by (simp add: matched_rules_def)
  next
    case (Inr cr)
    with Cons.prems have
      "process_crbs k8s username rest
         (process_rules
            (concat (map (\<lambda>s. Rules cr) (filter (matches username) (Subjects crb)))) p)
         (fetched @ map (\<lambda>s. RoleRef_Name crb) (filter (matches username) (Subjects crb)))
       = (Inr p', fetched')"
      by (simp add: process_subjects_ok)
    from Cons.IH [OF this] Inr show ?thesis
      by (simp add: matched_rules_def process_rules_append)
  qed
qed

lemma process_crbs_ok_roles:
  "process_crbs k8s username crbs p fetched = (Inr p', fetched') \<Longrightarrow>
   (\<forall>crb \<in> set crbs. (\<exists>s \<in> set (Subjects crb). matches username s) \<longrightarrow>
        (\<exists>cr. ClusterRoles_Get k8s (RoleRef_Name crb) = Inr cr))"
proof (induction crbs arbitrary: p fetched)
  case Nil
  then show ?case by simp
next
  case (Cons crb rest)
  show ?case
  proof (cases "ClusterRoles_Get k8s (RoleRef_Name crb)")
    case (Inl e)
    with Cons.prems have none: "filter (matches username) (Subjects crb) = []"
      and rest: "process_crbs k8s username rest p fetched = (Inr p', fetched')"
      by (auto simp: process_subjects_fail split: if_splits)
    from Cons.IH [OF rest] none show ?thesis
      by (auto simp: filter_empty_conv)
  next
    case (Inr cr)
    with Cons.prems have
      "process_crbs k8s username rest
         (process_rules
            (concat (map (\<lambda>s. Rules cr) (filter (matches username) (Subjects crb)))) p)
         (fetched @ map (\<lambda>s. RoleRef_Name crb) (filter (matches username) (Subjects crb)))
       = (Inr p', fetched')"
      by (simp add: process_subjects_ok)
    from Cons.IH [OF this] Inr show ?thesis
      by auto
  qed
qed

lemma process_crbs_fail_log:
  "process_crbs k8s username crbs p fetched = (Inl err, fetched') \<Longrightarrow>
   \<exists>pre n e. fetched' = fetched @ pre @ [n]
      \<and> (\<forall>m \<in> set pre. \<exists>cr. ClusterRoles_Get k8s m = Inr cr)
      \<and> ClusterRoles_Get k8s n = Inl e
      \<and> err = AuthorityError (''failed to get ClusterRole '' @ n @ '': '' @ e) e"
proof (induction crbs arbitrary: p fetched)
  case Nil
  then show ?case by simp
next
  case (Cons crb rest)
  show ?case
  proof (cases "ClusterRoles_Get k8s (RoleRef_Name crb)")
    case (Inl e)
    show ?thesis
    proof (cases "filter (matches username) (Subjects crb) = []")
      case True
      with Inl Cons.prems have "process_crbs k8s username rest p fetched = (Inl err, fetched')"
        by (simp add: process_subjects_fail)
      from Cons.IH [OF this] show ?thesis .
    next
      case False
      with Inl Cons.prems have "fetched' = fetched @ [] @ [RoleRef_Name crb]"
        and "err = AuthorityError
               (''failed to get ClusterRole '' @ RoleRef_Name crb @ '': '' @ e) e"
        by (simp_all add: process_subjects_fail)
      with Inl show ?thesis
        by (intro exI [of _ "[]"] exI [of _ "RoleRef_Name crb"] exI [of _ e]) simp
    qed
  next
    case (Inr cr)
    let ?k = "map (\<lambda>s. RoleRef_Name crb) (filter (matches username) (Subjects crb))"
    from Inr Cons.prems have
      "process_crbs k8s username rest
         (process_rules
            (concat (map (\<lambda>s. Rules cr) (filter (matches username) (Subjects crb)))) p)
         (fetched @ ?k) = (Inl err, fetched')"
      by (simp add: process_subjects_ok)
    from Cons.IH [OF this] obtain pre n e where
      a: "fetched' = (fetched @ ?k) @ pre @ [n]"
      and b: "\<forall>m \<in> set pre. \<exists>cr. ClusterRoles_Get k8s m = Inr cr"
      and c: "ClusterRoles_Get k8s n = Inl e"
      and d: "err = AuthorityError (''failed to get ClusterRole '' @ n @ '': '' @ e) e"
      by blast
    from a have "fetched' = fetched @ (?k @ pre) @ [n]" by simp
    moreover from b Inr have "\<forall>m \<in> set (?k @ pre). \<exists>cr. ClusterRoles_Get k8s m = Inr cr"
      by auto
    ultimately show ?thesis using c d by blast
  qed
qed

section \<open>The properties\<close>

text \<open>
  C1. If the snapshot has an entry under the key \<^verbatim>\<open>"*"\<close> of \<open>Resources\<close> whose
  verbs contain the requested verb or \<^verbatim>\<open>"*"\<close>, then \<open>HasPermission\<close> is true for
  every API group and every resource, whatever \<open>APIGroups\<close> holds.
\<close>

theorem HasPermission_global_wildcard:
  assumes "Resources p ''*'' = Some verbs"
    and "verb \<in> set verbs \<or> ''*'' \<in> set verbs"
  shows "HasPermission p apiGroup resource verb"
  using assms by (auto simp: HasPermission_def wildcard_verbs_loop_iff)

theorem HasPermission_global_wildcard_witness:
  "Resources \<lparr> Resources = [''*'' \<mapsto> [''*'']], APIGroups = [''apps'' \<mapsto> [''services'']] \<rparr> ''*''
     = Some [''*'']
   \<and> (''delete'' \<in> set [''*''] \<or> ''*'' \<in> set [''*''])
   \<and> HasPermission \<lparr> Resources = [''*'' \<mapsto> [''*'']], APIGroups = [''apps'' \<mapsto> [''services'']] \<rparr>
        ''batch'' ''jobs'' ''delete''"
proof -
  let ?p = "\<lparr> Resources = [''*'' \<mapsto> [''*'']], APIGroups = [''apps'' \<mapsto> [''services'']] \<rparr>"
  have h1: "Resources ?p ''*'' = Some [''*'']" by simp
  have h2: "''delete'' \<in> set [''*''] \<or> ''*'' \<in> set [''*'']" by simp
  from HasPermission_global_wildcard [OF h1 h2, of "''batch''" "''jobs''"] h1 h2
  show ?thesis by simp
qed

text \<open>
  C2. When no entry under \<^verbatim>\<open>"*"\<close> grants the verb and the verbs of
  \<open>Resources[resource]\<close> contain the verb or \<^verbatim>\<open>"*"\<close>, \<open>HasPermission\<close> is true
  exactly when \<open>APIGroups\<close>, at the API group with \<^verbatim>\<open>"core"\<close> replaced by the
  empty string, contains the resource or \<^verbatim>\<open>"*"\<close>. With
  \<open>Resources["pods"] = ["get"]\<close>, the request ("core", "pods", "get") is granted
  when \<open>APIGroups[""] = ["pods"]\<close> and refused when \<open>APIGroups[""] = ["services"]\<close>.
\<close>

theorem HasPermission_resource_grant:
  "((\<forall>ws. Resources p ''*'' = Some ws \<longrightarrow> verb \<notin> set ws \<and> ''*'' \<notin> set ws)
      \<and> Resources p resource = Some verbs
      \<and> (verb \<in> set verbs \<or> ''*'' \<in> set verbs)
    \<longrightarrow> (HasPermission p apiGroup resource verb \<longleftrightarrow>
           (\<exists>rs. APIGroups p (if apiGroup = ''core'' then [] else apiGroup) = Some rs
                 \<and> (resource \<in> set rs \<or> ''*'' \<in> set rs))))
   \<and> HasPermission \<lparr> Resources = [''pods'' \<mapsto> [''get'']], APIGroups = [[] \<mapsto> [''pods'']] \<rparr>
        ''core'' ''pods'' ''get''
   \<and> \<not> HasPermission \<lparr> Resources = [''pods'' \<mapsto> [''get'']], APIGroups = [[] \<mapsto> [''services'']] \<rparr>
        ''core'' ''pods'' ''get''"
proof (intro conjI impI)
  assume "(\<forall>ws. Resources p ''*'' = Some ws \<longrightarrow> verb \<notin> set ws \<and> ''*'' \<notin> set ws)
      \<and> Resources p resource = Some verbs
      \<and> (verb \<in> set verbs \<or> ''*'' \<in> set verbs)"
  then show "HasPermission p apiGroup resource verb \<longleftrightarrow>
           (\<exists>rs. APIGroups p (if apiGroup = ''core'' then [] else apiGroup) = Some rs
                 \<and> (resource \<in> set rs \<or> ''*'' \<in> set rs))"
    by (auto simp: HasPermission_def wildcard_verbs_loop_iff resource_verbs_loop_iff
             split: option.splits)
next
  show "HasPermission \<lparr> Resources = [''pods'' \<mapsto> [''get'']], APIGroups = [[] \<mapsto> [''pods'']] \<rparr>
        ''core'' ''pods'' ''get''"
    by (simp add: HasPermission_def)
next
  show "\<not> HasPermission \<lparr> Resources = [''pods'' \<mapsto> [''get'']], APIGroups = [[] \<mapsto> [''services'']] \<rparr>
        ''core'' ''pods'' ''get''"
    by (simp add: HasPermission_def)
qed

theorem HasPermission_resource_grant_witness:
  "Resources \<lparr> Resources = [''*'' \<mapsto> [''list''], ''pods'' \<mapsto> [''watch'', ''*'']],
                APIGroups = [''apps'' \<mapsto> [''*'']] \<rparr> ''*'' = Some [''list'']
   \<and> ''get'' \<notin> set [''list''] \<and> ''*'' \<notin> set [''list'']
   \<and> Resources \<lparr> Resources = [''*'' \<mapsto> [''list''], ''pods'' \<mapsto> [''watch'', ''*'']],
                  APIGroups = [''apps'' \<mapsto> [''*'']] \<rparr> ''pods'' = Some [''watch'', ''*'']
   \<and> (''get'' \<in> set [''watch'', ''*''] \<or> ''*'' \<in> set [''watch'', ''*''])
   \<and> HasPermission \<lparr> Resources = [''*'' \<mapsto> [''list''], ''pods'' \<mapsto> [''watch'', ''*'']],
                     APIGroups = [''apps'' \<mapsto> [''*'']] \<rparr> ''apps'' ''pods'' ''get''
   \<and> \<not> HasPermission \<lparr> Resources = [''*'' \<mapsto> [''list''], ''pods'' \<mapsto> [''watch'', ''*'']],
                       APIGroups = [''apps'' \<mapsto> [''*'']] \<rparr> ''core'' ''pods'' ''get''"
proof -
  let ?p = "\<lparr> Resources = [''*'' \<mapsto> [''list''], ''pods'' \<mapsto> [''watch'', ''*'']],
              APIGroups = [''apps'' \<mapsto> [''*'']] \<rparr>"
  have w: "Resources ?p ''*'' = Some [''list'']"
    and n: "''get'' \<notin> set [''list'']" "''*'' \<notin> set [''list'']"
    and r: "Resources ?p ''pods'' = Some [''watch'', ''*'']"
    and v: "''get'' \<in> set [''watch'', ''*''] \<or> ''*'' \<in> set [''watch'', ''*'']"
    by simp_all
  from w n r v have h:
    "(\<forall>ws. Resources ?p ''*'' = Some ws \<longrightarrow> ''get'' \<notin> set ws \<and> ''*'' \<notin> set ws)
      \<and> Resources ?p ''pods'' = Some [''watch'', ''*'']
      \<and> (''get'' \<in> set [''watch'', ''*''] \<or> ''*'' \<in> set [''watch'', ''*''])"
    by simp
  have a: "HasPermission ?p ''apps'' ''pods'' ''get''"
    using HasPermission_resource_grant
      [of ?p "''get''" "''pods''" "[''watch'', ''*'']" "''apps''"] h
    by simp
  have b: "\<not> HasPermission ?p ''core'' ''pods'' ''get''"
    using HasPermission_resource_grant
      [of ?p "''get''" "''pods''" "[''watch'', ''*'']" "''core''"] h
    by simp
  from w n r v a b show ?thesis by blast
qed

text \<open>
  C3. With a cache entry for the user that is not older than five minutes,
  \<open>CheckUserPermissions\<close> answers from the entry alone: true exactly when the
  verb itself occurs among the cached verbs of the resource type. A cached
  \<^verbatim>\<open>"*"\<close> does not grant another verb, and a cached verb other than \<^verbatim>\<open>"*"\<close>
  does not grant the request for \<^verbatim>\<open>"*"\<close>.
\<close>

theorem CheckUserPermissions_fresh_exact:
  assumes "cache username = Some (Some permissions)"
    and "now - LastChecked permissions \<le> 5 * time_Minute"
  shows "CheckUserPermissions userClient now cache username resourceType verb =
           (Inr (\<exists>verbs. ResourcePermissions permissions resourceType = Some verbs
                         \<and> verb \<in> set verbs), cache, [])
         \<and> (ResourcePermissions permissions resourceType = Some [''*''] \<and> verb \<noteq> ''*''
             \<longrightarrow> fst (CheckUserPermissions userClient now cache username resourceType verb)
                   = Inr False)
         \<and> (\<forall>v. ResourcePermissions permissions resourceType = Some [v] \<and> v \<noteq> ''*''
                   \<and> verb = ''*''
             \<longrightarrow> fst (CheckUserPermissions userClient now cache username resourceType verb)
                   = Inr False)"
proof -
  from assms(2) have fresh: "\<not> 5 * time_Minute < time_Sub now (LastChecked permissions)"
    by (simp add: time_Sub_stale)
  have "cached_check permissions resourceType verb \<longleftrightarrow>
          (\<exists>verbs. ResourcePermissions permissions resourceType = Some verbs \<and> verb \<in> set verbs)"
    by (simp add: cached_check_def cached_verbs_loop_iff split: option.splits)
  with assms(1) fresh have main:
    "CheckUserPermissions userClient now cache username resourceType verb =
       (Inr (\<exists>verbs. ResourcePermissions permissions resourceType = Some verbs
                     \<and> verb \<in> set verbs), cache, [])"
    by (simp add: CheckUserPermissions_def)
  then show ?thesis by auto
qed

theorem CheckUserPermissions_fresh_exact_witness:
  "alice_cache ''alice'' = Some (Some alice_entry)
   \<and> (1000 + 5 * time_Minute) - LastChecked alice_entry \<le> 5 * time_Minute
   \<and> CheckUserPermissions failing_client (1000 + 5 * time_Minute) alice_cache
        ''alice'' ''pods'' ''get'' = (Inr True, alice_cache, [])
   \<and> CheckUserPermissions allowing_client (1000 + 5 * time_Minute) alice_cache
        ''alice'' ''pods'' ''*'' = (Inr False, alice_cache, [])
   \<and> CheckUserPermissions allowing_client (1000 + 5 * time_Minute) alice_cache
        ''alice'' ''nodes'' ''get'' = (Inr False, alice_cache, [])"
proof -
  have h1: "alice_cache ''alice'' = Some (Some alice_entry)"
    by (simp add: alice_cache_def)
  have h2: "(1000 + 5 * time_Minute) - LastChecked alice_entry \<le> 5 * time_Minute"
    by (simp add: alice_entry_def)
  have a: "CheckUserPermissions failing_client (1000 + 5 * time_Minute) alice_cache
        ''alice'' ''pods'' ''get'' = (Inr True, alice_cache, [])"
    using CheckUserPermissions_fresh_exact
      [where cache = alice_cache and username = "''alice''" and permissions = alice_entry
         and now = "1000 + 5 * time_Minute" and userClient = failing_client
         and resourceType = "''pods''" and verb = "''get''"] h1 h2
    by (simp add: alice_entry_def)
  have b: "CheckUserPermissions allowing_client (1000 + 5 * time_Minute) alice_cache
        ''alice'' ''pods'' ''*'' = (Inr False, alice_cache, [])"
    using CheckUserPermissions_fresh_exact
      [where cache = alice_cache and username = "''alice''" and permissions = alice_entry
         and now = "1000 + 5 * time_Minute" and userClient = allowing_client
         and resourceType = "''pods''" and verb = "''*''"] h1 h2
    by (simp add: alice_entry_def)
  have c: "CheckUserPermissions allowing_client (1000 + 5 * time_Minute) alice_cache
        ''alice'' ''nodes'' ''get'' = (Inr False, alice_cache, [])"
    using CheckUserPermissions_fresh_exact
      [where cache = alice_cache and username = "''alice''" and permissions = alice_entry
         and now = "1000 + 5 * time_Minute" and userClient = allowing_client
         and resourceType = "''nodes''" and verb = "''get''"] h1 h2
    by (simp add: alice_entry_def)
  from h1 h2 a b c show ?thesis by blast
qed

text \<open>
  C4. With no cache entry for the user, or one older than five minutes,
  \<open>CheckUserPermissions\<close> makes exactly one review call, for the resource type
  and the one verb. If the call fails the result is an authority error, also
  when a stale entry exists; if it gives no review the result is false;
  otherwise the result is the allowed flag of the first review. The cache is
  left as it was.
\<close>

theorem CheckUserPermissions_live:
  assumes "cache username = None
           \<or> (\<exists>permissions. cache username = Some (Some permissions)
                \<and> 5 * time_Minute < now - LastChecked permissions)"
  shows "CheckUserPermissions userClient now cache username resourceType verb =
           ((case GetSelfSubjectAccessReview userClient [] [] resourceType [verb] of
               Inl err \<Rightarrow> Inl (AuthorityError (''error checking permissions: '' @ err) err)
             | Inr [] \<Rightarrow> Inr False
             | Inr (first # others) \<Rightarrow> Inr (Status_Allowed first)),
            cache,
            [([], [], resourceType, [verb])])"
  using assms
  by (auto simp: CheckUserPermissions_def live_check_def review_result_def time_Sub_stale
           split: sum.splits list.splits)

theorem CheckUserPermissions_live_witness:
  "alice_cache ''bob'' = None
   \<and> CheckUserPermissions allowing_client 1000 alice_cache ''bob'' ''pods'' ''get'' =
       (Inr True, alice_cache, [([], [], ''pods'', [''get''])])
   \<and> alice_cache ''alice'' = Some (Some alice_entry)
   \<and> 5 * time_Minute < (1001 + 5 * time_Minute) - LastChecked alice_entry
   \<and> CheckUserPermissions failing_client (1001 + 5 * time_Minute) alice_cache
        ''alice'' ''pods'' ''get'' =
       (Inl (AuthorityError ''error checking permissions: forbidden'' ''forbidden''),
        alice_cache, [([], [], ''pods'', [''get''])])"
proof -
  have h1: "alice_cache ''bob'' = None"
    by (simp add: alice_cache_def)
  have h2: "alice_cache ''alice'' = Some (Some alice_entry)"
    by (simp add: alice_cache_def)
  have h3: "5 * time_Minute < (1001 + 5 * time_Minute) - LastChecked alice_entry"
    by (simp add: alice_entry_def)
  have a: "CheckUserPermissions allowing_client 1000 alice_cache ''bob'' ''pods'' ''get'' =
       (Inr True, alice_cache, [([], [], ''pods'', [''get''])])"
    using CheckUserPermissions_live
      [of alice_cache "''bob''" 1000 allowing_client "''pods''" "''get''"] h1
    by (simp add: allowing_client_def)
  have b: "CheckUserPermissions failing_client (1001 + 5 * time_Minute) alice_cache
        ''alice'' ''pods'' ''get'' =
       (Inl (AuthorityError ''error checking permissions: forbidden'' ''forbidden''),
        alice_cache, [([], [], ''pods'', [''get''])])"
    using CheckUserPermissions_live
      [of alice_cache "''alice''" "1001 + 5 * time_Minute" failing_client "''pods''" "''get''"]
      h2 h3
    by (simp add: failing_client_def)
  from h1 h2 h3 a b show ?thesis by blast
qed

text \<open>
  C5. When the resolution succeeds, \<open>Resources[resource]\<close> of the snapshot is
  the verb list of the last processed rule that names the resource, and
  nothing of the earlier ones (absent when no processed rule names it). For
  a user bound to a role with \<open>pods: [get]\<close> and then to a role with
  \<open>pods: [list]\<close>, the snapshot has \<open>Resources["pods"] = ["list"]\<close> and no other
  entry in \<open>Resources\<close>.
\<close>

theorem GetUserPermissions_last_rule_wins:
  "(ClusterRoleBindings_List k8s = Inr crbs
      \<and> GetUserPermissions k8s username = (Inr p, fetched)
    \<longrightarrow> Resources p resource =
          (case find (\<lambda>rule. resource \<in> set (rule_Resources rule))
                  (rev (matched_rules k8s username crbs)) of
             Some rule \<Rightarrow> Some (rule_Verbs rule)
           | None \<Rightarrow> None))
   \<and> GetUserPermissions two_roles_k8s ''alice'' =
       (Inr \<lparr> Resources = [''pods'' \<mapsto> [''list'']],
              APIGroups = [[] \<mapsto> [''pods'', ''pods'']] \<rparr>,
        [''role-get'', ''role-list''])"
proof (intro conjI impI)
  assume a: "ClusterRoleBindings_List k8s = Inr crbs
      \<and> GetUserPermissions k8s username = (Inr p, fetched)"
  then have "process_crbs k8s username crbs
               \<lparr> Resources = Map.empty, APIGroups = Map.empty \<rparr> [] = (Inr p, fetched)"
    by (auto simp: GetUserPermissions_def)
  then have "p = process_rules (matched_rules k8s username crbs)
                   \<lparr> Resources = Map.empty, APIGroups = Map.empty \<rparr>"
    by (rule process_crbs_rules)
  then show "Resources p resource =
          (case find (\<lambda>rule. resource \<in> set (rule_Resources rule))
                  (rev (matched_rules k8s username crbs)) of
             Some rule \<Rightarrow> Some (rule_Verbs rule)
           | None \<Rightarrow> None)"
    by (simp add: Resources_process_rules split: option.splits)
next
  show "GetUserPermissions two_roles_k8s ''alice'' =
          (Inr \<lparr> Resources = [''pods'' \<mapsto> [''list'']],
                 APIGroups = [[] \<mapsto> [''pods'', ''pods'']] \<rparr>,
           [''role-get'', ''role-list''])"
    by (simp add: GetUserPermissions_def process_rule_def
          two_roles_k8s_def alice_binding_def example_roles_def role_get_def role_list_def)
qed

theorem GetUserPermissions_last_rule_wins_witness:
  "ClusterRoleBindings_List two_roles_k8s
     = Inr [alice_binding ''role-get'', alice_binding ''role-list'']
   \<and> GetUserPermissions two_roles_k8s ''alice'' =
       (Inr \<lparr> Resources = [''pods'' \<mapsto> [''list'']],
              APIGroups = [[] \<mapsto> [''pods'', ''pods'']] \<rparr>,
        [''role-get'', ''role-list''])
   \<and> matched_rules two_roles_k8s ''alice''
         [alice_binding ''role-get'', alice_binding ''role-list'']
       = [\<lparr> rule_APIGroups = [[]], rule_Resources = [''pods''], rule_Verbs = [''get''] \<rparr>,
          \<lparr> rule_APIGroups = [[]], rule_Resources = [''pods''], rule_Verbs = [''list''] \<rparr>]
   \<and> Resources \<lparr> Resources = [''pods'' \<mapsto> [''list'']],
                  APIGroups = [[] \<mapsto> [''pods'', ''pods'']] \<rparr> ''pods'' = Some [''list'']
   \<and> Resources \<lparr> Resources = [''pods'' \<mapsto> [''list'']],
                  APIGroups = [[] \<mapsto> [''pods'', ''pods'']] \<rparr> ''nodes'' = None"
proof -
  let ?p = "\<lparr> Resources = [''pods'' \<mapsto> [''list'']], APIGroups = [[] \<mapsto> [''pods'', ''pods'']] \<rparr>"
  let ?crbs = "[alice_binding ''role-get'', alice_binding ''role-list'']"
  have h1: "ClusterRoleBindings_List two_roles_k8s = Inr ?crbs"
    by (simp add: two_roles_k8s_def)
  have h2: "GetUserPermissions two_roles_k8s ''alice'' = (Inr ?p, [''role-get'', ''role-list''])"
    by (simp add: GetUserPermissions_def process_rule_def
          two_roles_k8s_def alice_binding_def example_roles_def role_get_def role_list_def)
  have m: "matched_rules two_roles_k8s ''alice'' ?crbs
       = [\<lparr> rule_APIGroups = [[]], rule_Resources = [''pods''], rule_Verbs = [''get''] \<rparr>,
          \<lparr> rule_APIGroups = [[]], rule_Resources = [''pods''], rule_Verbs = [''list''] \<rparr>]"
    by (simp add: matched_rules_def matches_def two_roles_k8s_def alice_binding_def example_roles_def role_get_def role_list_def)
  have a: "Resources ?p ''pods'' = Some [''list'']"
    using GetUserPermissions_last_rule_wins
      [of two_roles_k8s ?crbs "''alice''" ?p "[''role-get'', ''role-list'']" "''pods''"]
      h1 h2 m
    by simp
  have b: "Resources ?p ''nodes'' = None"
    using GetUserPermissions_last_rule_wins
      [of two_roles_k8s ?crbs "''alice''" ?p "[''role-get'', ''role-list'']" "''nodes''"]
      h1 h2 m
    by simp
  from h1 h2 m a b show ?thesis by blast
qed

text \<open>
  C6, at a concrete cluster. The user is bound to a role whose one rule has API
  groups \<open>["*"]\<close>, resources \<open>["pods"]\<close> and verbs \<open>["get"]\<close>. The resolution
  files the rule's resources under the group key \<^verbatim>\<open>"core"\<close>, while
  \<open>HasPermission\<close> replaces a requested \<^verbatim>\<open>"core"\<close> by the empty string before
  its lookup and so never reads that key: the request is refused for
  \<^verbatim>\<open>"core"\<close>, for the empty string and for every other API group.
\<close>

theorem wildcard_apiGroup_rule_grants_nothing:
  "GetUserPermissions all_groups_k8s ''alice'' =
     (Inr \<lparr> Resources = [''pods'' \<mapsto> [''get'']], APIGroups = [''core'' \<mapsto> [''pods'']] \<rparr>,
      [''role-all-groups''])
   \<and> \<not> HasPermission
          \<lparr> Resources = [''pods'' \<mapsto> [''get'']], APIGroups = [''core'' \<mapsto> [''pods'']] \<rparr>
          ''core'' ''pods'' ''get''
   \<and> \<not> HasPermission
          \<lparr> Resources = [''pods'' \<mapsto> [''get'']], APIGroups = [''core'' \<mapsto> [''pods'']] \<rparr>
          [] ''pods'' ''get''
   \<and> (\<forall>g. \<not> HasPermission
          \<lparr> Resources = [''pods'' \<mapsto> [''get'']], APIGroups = [''core'' \<mapsto> [''pods'']] \<rparr>
          g ''pods'' ''get'')"
proof -
  have "GetUserPermissions all_groups_k8s ''alice'' =
     (Inr \<lparr> Resources = [''pods'' \<mapsto> [''get'']], APIGroups = [''core'' \<mapsto> [''pods'']] \<rparr>,
      [''role-all-groups''])"
    by (simp add: GetUserPermissions_def process_rule_def
          all_groups_k8s_def alice_binding_def example_roles_def role_all_groups_def)
  moreover have "\<And>g. \<not> HasPermission
          \<lparr> Resources = [''pods'' \<mapsto> [''get'']], APIGroups = [''core'' \<mapsto> [''pods'']] \<rparr>
          g ''pods'' ''get''"
    by (simp add: HasPermission_def)
  ultimately show ?thesis by blast
qed

text \<open>
  C7. When the listing succeeds and some binding with a subject of kind
  \<^verbatim>\<open>"User"\<close> named as the user refers to a role whose fetch fails, the
  resolution fails with an authority error and gives no snapshot. The error is
  that of the first failing fetch: every role fetched before it was fetched
  successfully, and no role is fetched after it.
\<close>

theorem GetUserPermissions_fetch_failure_aborts:
  assumes "ClusterRoleBindings_List k8s = Inr crbs"
    and "crb \<in> set crbs"
    and "subject \<in> set (Subjects crb)"
    and "Kind subject = ''User'' \<and> Name subject = username"
    and "ClusterRoles_Get k8s (RoleRef_Name crb) = Inl cause"
  shows "\<exists>pre n e.
           GetUserPermissions k8s username =
             (Inl (AuthorityError (''failed to get ClusterRole '' @ n @ '': '' @ e) e),
              pre @ [n])
           \<and> ClusterRoles_Get k8s n = Inl e
           \<and> (\<forall>m \<in> set pre. \<exists>cr. ClusterRoles_Get k8s m = Inr cr)"
proof -
  let ?start = "\<lparr> Resources = Map.empty, APIGroups = Map.empty \<rparr>"
  obtain res fetched where run: "process_crbs k8s username crbs ?start [] = (res, fetched)"
    by (cases "process_crbs k8s username crbs ?start []")
  have "\<exists>err. res = Inl err"
  proof (cases res)
    case (Inl err)
    then show ?thesis by simp
  next
    case (Inr p)
    with run have "process_crbs k8s username crbs ?start [] = (Inr p, fetched)" by simp
    from process_crbs_ok_roles [OF this] assms(2-4)
    have "\<exists>cr. ClusterRoles_Get k8s (RoleRef_Name crb) = Inr cr"
      by (auto simp: matches_def)
    with assms(5) show ?thesis by simp
  qed
  then obtain err where "res = Inl err" ..
  with run have "process_crbs k8s username crbs ?start [] = (Inl err, fetched)" by simp
  from process_crbs_fail_log [OF this] obtain pre n e where
    "fetched = pre @ [n]"
    "\<forall>m \<in> set pre. \<exists>cr. ClusterRoles_Get k8s m = Inr cr"
    "ClusterRoles_Get k8s n = Inl e"
    "err = AuthorityError (''failed to get ClusterRole '' @ n @ '': '' @ e) e"
    by auto
  with run \<open>res = Inl err\<close> assms(1) show ?thesis
    by (auto simp: GetUserPermissions_def)
qed

theorem GetUserPermissions_fetch_failure_aborts_witness:
  "ClusterRoleBindings_List missing_role_k8s =
     Inr [alice_binding ''role-get'', alice_binding ''role-gone'', alice_binding ''role-list'']
   \<and> alice_binding ''role-gone''
       \<in> set [alice_binding ''role-get'', alice_binding ''role-gone'',
              alice_binding ''role-list'']
   \<and> \<lparr> Kind = ''User'', Name = ''alice'' \<rparr> \<in> set (Subjects (alice_binding ''role-gone''))
   \<and> ClusterRoles_Get missing_role_k8s (RoleRef_Name (alice_binding ''role-gone''))
       = Inl ''not found''
   \<and> (\<exists>pre n e.
         GetUserPermissions missing_role_k8s ''alice'' =
           (Inl (AuthorityError (''failed to get ClusterRole '' @ n @ '': '' @ e) e), pre @ [n])
         \<and> ClusterRoles_Get missing_role_k8s n = Inl e
         \<and> (\<forall>m \<in> set pre. \<exists>cr. ClusterRoles_Get missing_role_k8s m = Inr cr))
   \<and> GetUserPermissions missing_role_k8s ''alice'' =
       (Inl (AuthorityError ''failed to get ClusterRole role-gone: not found'' ''not found''),
        [''role-get'', ''role-gone''])"
proof -
  let ?crbs = "[alice_binding ''role-get'', alice_binding ''role-gone'',
                alice_binding ''role-list'']"
  have h1: "ClusterRoleBindings_List missing_role_k8s = Inr ?crbs"
    by (simp add: missing_role_k8s_def)
  have h2: "alice_binding ''role-gone'' \<in> set ?crbs"
    by simp
  have h3: "\<lparr> Kind = ''User'', Name = ''alice'' \<rparr> \<in> set (Subjects (alice_binding ''role-gone''))"
    by (simp add: alice_binding_def)
  have h4: "Kind \<lparr> Kind = ''User'', Name = ''alice'' \<rparr> = ''User''
            \<and> Name \<lparr> Kind = ''User'', Name = ''alice'' \<rparr> = ''alice''"
    by simp
  have h5: "ClusterRoles_Get missing_role_k8s (RoleRef_Name (alice_binding ''role-gone''))
       = Inl ''not found''"
    by (simp add: missing_role_k8s_def alice_binding_def example_roles_def)
  note a = GetUserPermissions_fetch_failure_aborts [OF h1 h2 h3 h4 h5]
  have b: "GetUserPermissions missing_role_k8s ''alice'' =
       (Inl (AuthorityError ''failed to get ClusterRole role-gone: not found'' ''not found''),
        [''role-get'', ''role-gone''])"
    by (simp add: GetUserPermissions_def process_rule_def
          missing_role_k8s_def alice_binding_def example_roles_def role_get_def)
  from h1 h2 h3 h5 a b show ?thesis by blast
qed

text \<open>
  C8. The cache is an exact map from user to snapshot. Storing a snapshot for
  a user and then reading that user gives the stored snapshot back, and
  reading a user after clearing it gives nothing, whether or not the cache
  held the user before (also on the empty cache). Reading any user after a
  store or a clear of one user gives the stored snapshot, or nothing, for that
  user and what the cache held before for every other user; a second store
  for a user replaces the first.
\<close>

theorem cache_put_get_delete:
  "business_GetUserPermissions username (CacheUserPermissions username permissions cache)
     = permissions
   \<and> business_GetUserPermissions username (ClearUserPermissions username cache) = None
   \<and> business_GetUserPermissions username (ClearUserPermissions username Map.empty) = None
   \<and> business_GetUserPermissions other (CacheUserPermissions username permissions cache)
       = (if other = username then permissions else business_GetUserPermissions other cache)
   \<and> business_GetUserPermissions other (ClearUserPermissions username cache)
       = (if other = username then None else business_GetUserPermissions other cache)
   \<and> CacheUserPermissions username permissions
         (CacheUserPermissions username earlier cache)
       = CacheUserPermissions username permissions cache
   \<and> ClearUserPermissions username (CacheUserPermissions username permissions cache)
       = ClearUserPermissions username cache"
  by (simp add: business_GetUserPermissions_def CacheUserPermissions_def
        ClearUserPermissions_def)

theorem cache_put_get_delete_witness:
  "business_GetUserPermissions ''bob'' (CacheUserPermissions ''bob'' None alice_cache) = None
   \<and> business_GetUserPermissions ''alice'' (CacheUserPermissions ''bob'' None alice_cache)
       = Some alice_entry
   \<and> business_GetUserPermissions ''alice'' (ClearUserPermissions ''bob'' alice_cache)
       = Some alice_entry
   \<and> business_GetUserPermissions ''bob'' (ClearUserPermissions ''bob'' alice_cache) = None
   \<and> business_GetUserPermissions ''alice'' (ClearUserPermissions ''alice'' alice_cache) = None
   \<and> business_GetUserPermissions ''alice''
         (CacheUserPermissions ''alice''
            (Some \<lparr> ResourcePermissions = Map.empty, LastChecked = 7 \<rparr>) alice_cache)
       = Some \<lparr> ResourcePermissions = Map.empty, LastChecked = 7 \<rparr>"
proof -
  have g: "business_GetUserPermissions ''alice'' alice_cache = Some alice_entry"
    by (simp add: business_GetUserPermissions_def alice_cache_def)
  have a: "business_GetUserPermissions ''bob'' (CacheUserPermissions ''bob'' None alice_cache)
             = None"
    using cache_put_get_delete [of "''bob''" None alice_cache] by simp
  have b: "business_GetUserPermissions ''alice''
             (CacheUserPermissions ''bob'' None alice_cache) = Some alice_entry"
    using cache_put_get_delete [of "''bob''" None alice_cache "''alice''"] g by simp
  have c: "business_GetUserPermissions ''alice'' (ClearUserPermissions ''bob'' alice_cache)
             = Some alice_entry"
    using cache_put_get_delete [of "''bob''" None alice_cache "''alice''"] g by simp
  have d: "business_GetUserPermissions ''bob'' (ClearUserPermissions ''bob'' alice_cache)
             = None"
    using cache_put_get_delete [of "''bob''" None alice_cache] by simp
  have e: "business_GetUserPermissions ''alice'' (ClearUserPermissions ''alice'' alice_cache)
             = None"
    using cache_put_get_delete [of "''alice''" None alice_cache] by simp
  have f: "business_GetUserPermissions ''alice''
         (CacheUserPermissions ''alice''
            (Some \<lparr> ResourcePermissions = Map.empty, LastChecked = 7 \<rparr>) alice_cache)
       = Some \<lparr> ResourcePermissions = Map.empty, LastChecked = 7 \<rparr>"
    using cache_put_get_delete
      [of "''alice''" "Some \<lparr> ResourcePermissions = Map.empty, LastChecked = 7 \<rparr>" alice_cache]
    by simp
  from a b c d e f show ?thesis by blast
qed

text \<open>
  C9. \<open>FilterResources\<close> gives the empty sequence when the snapshot does not
  grant \<^verbatim>\<open>"list"\<close> on the resource type in the API group, and otherwise the
  input items themselves: the same elements, in the same order.
\<close>

theorem FilterResources_gate:
  "FilterResources p apiGroup resourceType items =
     (if HasPermission p apiGroup resourceType ''list'' then items else [])"
  by (simp add: FilterResources_def filtered_loop_append)

text \<open>
  C10. When the listing succeeds and no binding has a subject of kind
  \<^verbatim>\<open>"User"\<close> named as the user, the resolution succeeds with a snapshot whose
  two maps are empty and fetches no role; \<open>HasPermission\<close> on that snapshot is
  false for every API group, resource and verb.
\<close>

theorem GetUserPermissions_no_binding:
  assumes "ClusterRoleBindings_List k8s = Inr crbs"
    and "\<forall>crb \<in> set crbs. \<forall>subject \<in> set (Subjects crb).
           \<not> (Kind subject = ''User'' \<and> Name subject = username)"
  shows "GetUserPermissions k8s username =
           (Inr \<lparr> Resources = Map.empty, APIGroups = Map.empty \<rparr>, [])
         \<and> \<not> HasPermission \<lparr> Resources = Map.empty, APIGroups = Map.empty \<rparr>
               apiGroup resource verb"
proof -
  from assms(2) have "\<forall>crb \<in> set crbs. \<forall>s \<in> set (Subjects crb). \<not> matches username s"
    by (simp add: matches_def)
  then have "process_crbs k8s username crbs
               \<lparr> Resources = Map.empty, APIGroups = Map.empty \<rparr> []
             = (Inr \<lparr> Resources = Map.empty, APIGroups = Map.empty \<rparr>, [])"
    by (rule process_crbs_no_match)
  with assms(1) show ?thesis
    by (simp add: GetUserPermissions_def HasPermission_def)
qed

theorem GetUserPermissions_no_binding_witness:
  "ClusterRoleBindings_List two_roles_k8s
     = Inr [alice_binding ''role-get'', alice_binding ''role-list'']
   \<and> filter (matches ''bob'')
        (concat (map Subjects [alice_binding ''role-get'', alice_binding ''role-list''])) = []
   \<and> GetUserPermissions two_roles_k8s ''bob'' =
       (Inr \<lparr> Resources = Map.empty, APIGroups = Map.empty \<rparr>, [])
   \<and> \<not> HasPermission \<lparr> Resources = Map.empty, APIGroups = Map.empty \<rparr> ''core'' ''pods'' ''get''"
proof -
  let ?crbs = "[alice_binding ''role-get'', alice_binding ''role-list'']"
  have h1: "ClusterRoleBindings_List two_roles_k8s = Inr ?crbs"
    by (simp add: two_roles_k8s_def)
  have f: "filter (matches ''bob'') (concat (map Subjects ?crbs)) = []"
    by (simp add: matches_def alice_binding_def)
  have h2: "\<forall>crb \<in> set ?crbs. \<forall>subject \<in> set (Subjects crb).
           \<not> (Kind subject = ''User'' \<and> Name subject = ''bob'')"
    by (simp add: alice_binding_def)
  note a = GetUserPermissions_no_binding [OF h1 h2, of "''core''" "''pods''" "''get''"]
  from h1 f a show ?thesis by blast
qed

end
